theory Spec2Isabelle
  imports Main "HOL-Library.Finite_Map"
begin

section \<open>Data model of package nr (nr.go, lines 154-174)\<close>

text \<open>
  Go's \<open>time.Time\<close> is an opaque instant; the resolver only stores it and prints it.
  It is kept as a wrapped integer, and its \<open>String\<close> method is a parameter
  (\<open>tstr\<close>) of every function that formats a file.
\<close>

datatype Time = Time int

record File =
  Name :: string
  Size :: string
  ModifiedDate :: Time
  Md5Hash :: string
  Link :: string
  ExpirationDate :: Time
  Service :: string

record Payload =
  ID :: string
  Status :: int
  Message :: string
  Files :: "File list"

text \<open>
  \<open>Accession\<close> has the fields \<open>ID\<close> and \<open>Files\<close> in the source; they are written
  \<open>AccID\<close> and \<open>AccFiles\<close> here because \<open>Payload\<close> already owns the two names.
  \<open>AccFiles\<close> is Go's \<open>map[string]File\<close>; a Go map is a finite map.
\<close>

record Accession =
  AccID :: string
  AccFiles :: "(string, File) fmap"

text \<open>A Go \<open>error\<close> value is represented by its message; \<open>None\<close> is \<open>nil\<close>.\<close>

type_synonym error = string


section \<open>Formatting (the verbs of fmt.Sprintf that the resolver uses)\<close>

definition digit_char :: "nat \<Rightarrow> char" where
  "digit_char n = char_of (48 + n)"

fun decimal :: "nat \<Rightarrow> string" where
  "decimal n = (if n < 10 then [digit_char n] else decimal (n div 10) @ [digit_char (n mod 10)])"

declare decimal.simps [simp del]

text \<open>The verb \<open>%d\<close> on an int.\<close>

definition sprint_d :: "int \<Rightarrow> string" where
  "sprint_d i = (if i < 0 then CHR ''-'' # decimal (nat (- i)) else decimal (nat i))"

text \<open>
  The verb \<open>%s\<close> on a \<open>File\<close> struct: the fields in declaration order, separated by
  blanks, inside braces; a \<open>time.Time\<close> field prints through its \<open>String\<close> method.
\<close>

definition sprint_File :: "(Time \<Rightarrow> string) \<Rightarrow> File \<Rightarrow> string" where
  "sprint_File tstr f =
     ''{'' @ Name f @ '' '' @ Size f @ '' '' @ tstr (ModifiedDate f) @ '' '' @ Md5Hash f @ '' ''
       @ Link f @ '' '' @ tstr (ExpirationDate f) @ '' '' @ Service f @ ''}''"

text \<open>nr.go line 124: the line added to \<open>msg\<close> for an entry whose status is not 200.\<close>

definition issue_status :: "Payload \<Rightarrow> string" where
  "issue_status p = ''issue with accession '' @ ID p @ '': '' @ Message p @ [CHR 0x0A]"

text \<open>nr.go line 125: the text added to \<open>errmsg\<close> for the same entry.\<close>

definition errmsg_status :: "Payload \<Rightarrow> string" where
  "errmsg_status p = ID p @ '': '' @ sprint_d (Status p) @ [CHR 0x09] @ Message p"

text \<open>nr.go line 136: the line added to \<open>msg\<close> for a file without a link.\<close>

definition issue_no_link :: "string \<Rightarrow> File \<Rightarrow> string" where
  "issue_no_link pid f =
     ''issue with accession '' @ pid @ '': API returned no link for '' @ Name f @ [CHR 0x0A]"

text \<open>nr.go line 140: the line added to \<open>msg\<close> for a file without a name.\<close>

definition issue_no_name :: "(Time \<Rightarrow> string) \<Rightarrow> string \<Rightarrow> File \<Rightarrow> string" where
  "issue_no_name tstr pid f =
     ''issue with accession '' @ pid @ '': API returned no name for '' @ sprint_File tstr f
       @ [CHR 0x0A]"


text \<open>nr.go line 149: the message of the error for an empty result.\<close>

definition err_no_mountable :: "string \<Rightarrow> error" where
  "err_no_mountable em = ''API returned no mountable accessions'' @ [CHR 0x0A] @ em"


section \<open>sanitize (nr.go, lines 119-152)\<close>

text \<open>
  The inner loop, lines 134-144, over the files of one entry. Its state is the file map
  of the accession being built and the message \<open>msg\<close>.

  In Go \<open>acc.Files\<close> is a reference to a map that is created once per identifier
  (line 129) and is reachable from that identifier's entry of \<open>accs\<close> only, so updating
  it in place and writing \<open>acc\<close> back on line 146 is the same as updating a value.
\<close>

fun files_loop ::
  "(Time \<Rightarrow> string) \<Rightarrow> string \<Rightarrow> File list \<Rightarrow> (string, File) fmap \<times> string
    \<Rightarrow> (string, File) fmap \<times> string" where
  "files_loop tstr pid [] (fm, msg) = (fm, msg)"
| "files_loop tstr pid (f # fs) (fm, msg) =
     (if Link f = [] then files_loop tstr pid fs (fm, msg @ issue_no_link pid f)
      else if Name f = [] then files_loop tstr pid fs (fm, msg @ issue_no_name tstr pid f)
      else files_loop tstr pid fs (fmupd (Name f) f fm, msg))"

text \<open>The variables of \<open>sanitize\<close> that the outer loop updates.\<close>

record state =
  accs :: "(string, Accession) fmap"
  msg :: string
  errmsg :: string

text \<open>One iteration of the outer loop, lines 123-146.\<close>

definition payload_step :: "(Time \<Rightarrow> string) \<Rightarrow> Payload \<Rightarrow> state \<Rightarrow> state" where
  "payload_step tstr p s =
     (if Status p \<noteq> 200
      then s\<lparr>msg := msg s @ issue_status p, errmsg := errmsg s @ errmsg_status p\<rparr>
      else
        let acc = (case fmlookup (accs s) (ID p) of
                     Some a \<Rightarrow> a
                   | None \<Rightarrow> \<lparr>AccID = ID p, AccFiles = fmempty\<rparr>);
            (fm, m) = files_loop tstr (ID p) (Files p) (AccFiles acc, msg s);
            acc' = acc\<lparr>AccFiles := fm\<rparr>
        in s\<lparr>accs := fmupd (AccID acc') acc' (accs s), msg := m\<rparr>)"

fun payload_loop :: "(Time \<Rightarrow> string) \<Rightarrow> Payload list \<Rightarrow> state \<Rightarrow> state" where
  "payload_loop tstr [] s = s"
| "payload_loop tstr (p # ps) s = payload_loop tstr ps (payload_step tstr p s)"

definition init_state :: state where
  "init_state = \<lparr>accs = fmempty, msg = [], errmsg = []\<rparr>"

text \<open>
  \<open>sanitize\<close> returns the triple \<open>(accs, msg, err)\<close>; \<open>len(accs) < 1\<close> is the number of
  keys of the map.
\<close>

definition sanitize ::
  "(Time \<Rightarrow> string) \<Rightarrow> Payload list \<Rightarrow> (string, Accession) fmap \<times> string \<times> error option" where
  "sanitize tstr payload =
     (let s = payload_loop tstr payload init_state
      in (accs s, msg s,
          if fcard (fmdom (accs s)) < 1
          then Some (err_no_mountable (errmsg s))
          else None))"


section \<open>ResolveNames (nr.go, lines 29-116)\<close>

text \<open>
  Lines 30-83 build the multipart request and send it; every failure there returns
  \<open>nil\<close> and an error at once. What the function does next depends only on the outcome
  of that exchange, which is its input here: either the error of the step that failed, or
  the response. Of the response the code reads the status code, the status text, the
  \<open>Content-Type\<close> header and the body; \<open>Body\<close> is \<open>None\<close> when \<open>ioutil.ReadAll\<close>
  fails. (The field \<open>Status\<close> of \<open>http.Response\<close> is written \<open>StatusText\<close>.)
\<close>

record Response =
  StatusCode :: int
  StatusText :: string
  ContentType :: string
  Body :: "string option"

datatype exchange = Failed error | Responded Response

text \<open>nr.go line 86.\<close>

definition err_http_status :: "string \<Rightarrow> error" where
  "err_http_status st = ''encountered error from Name Resolver API: '' @ st"

text \<open>nr.go line 90.\<close>

definition err_content_type :: "string \<Rightarrow> error" where
  "err_content_type ct = ''Name Resolver API gave incorrect Content-Type: '' @ ct"

text \<open>nr.go lines 95 and 105.\<close>

definition err_read :: error where
  "err_read = ''fatal error when trying to read response from Name Resolver API''"

text \<open>nr.go line 107.\<close>

definition err_api :: "int \<Rightarrow> string \<Rightarrow> error" where
  "err_api st ms = ''encountered error from Name Resolver API: '' @ sprint_d st @ '': '' @ ms"

text \<open>
  The two calls of \<open>json.Unmarshal\<close> (lines 100 and 103) are parameters: \<open>unmarshal_list\<close>
  decodes the body into a \<open>[]Payload\<close>, \<open>unmarshal_one\<close> into a \<open>Payload\<close>; \<open>None\<close> is
  a decoding error.

  The result is the pair that \<open>ResolveNames\<close> returns to its caller, the map (\<open>nil\<close> is
  the empty map) and the error, together with what line 112 printed on standard output.
  Debug logging is left out.
\<close>

definition ResolveNames ::
  "(string \<Rightarrow> Payload list option) \<Rightarrow> (string \<Rightarrow> Payload option) \<Rightarrow> (Time \<Rightarrow> string)
    \<Rightarrow> exchange \<Rightarrow> ((string, Accession) fmap \<times> error option) \<times> string" where
  "ResolveNames unmarshal_list unmarshal_one tstr ex =
     (case ex of
        Failed e \<Rightarrow> ((fmempty, Some e), [])
      | Responded resp \<Rightarrow>
          if StatusCode resp \<noteq> 200
          then ((fmempty, Some (err_http_status (StatusText resp))), [])
          else if ContentType resp \<noteq> ''application/json''
          then ((fmempty, Some (err_content_type (ContentType resp))), [])
          else
            (case Body resp of
               None \<Rightarrow> ((fmempty, Some err_read), [])
             | Some bytes \<Rightarrow>
                 (case unmarshal_list bytes of
                    None \<Rightarrow>
                      (case unmarshal_one bytes of
                         None \<Rightarrow> ((fmempty, Some err_read), [])
                       | Some errPayload \<Rightarrow>
                           ((fmempty, Some (err_api (Status errPayload) (Message errPayload))),
                            []))
                  | Some payload \<Rightarrow>
                      (case sanitize tstr payload of
                         (accessions, m, err) \<Rightarrow>
                           ((accessions, err),
                            if m \<noteq> [] \<and> err = None then m @ [CHR 0x0A] else [])))))"


section \<open>Notions used to state the properties\<close>

text \<open>A file that the inner loop keeps: it has a link and a name (lines 135 and 139).\<close>

definition wellformed :: "File \<Rightarrow> bool" where
  "wellformed f = (Link f \<noteq> [] \<and> Name f \<noteq> [])"

text \<open>What one file adds to \<open>msg\<close>: the text of line 136, else that of line 140, else nothing.\<close>

definition file_issue :: "(Time \<Rightarrow> string) \<Rightarrow> string \<Rightarrow> File \<Rightarrow> string" where
  "file_issue tstr pid f =
     (if Link f = [] then issue_no_link pid f
      else if Name f = [] then issue_no_name tstr pid f
      else [])"

text \<open>What one entry adds to \<open>msg\<close>: line 124 when its status is not 200, otherwise what
  its files add.\<close>

definition entry_issues :: "(Time \<Rightarrow> string) \<Rightarrow> Payload \<Rightarrow> string" where
  "entry_issues tstr p =
     (if Status p \<noteq> 200 then issue_status p
      else concat (map (file_issue tstr (ID p)) (Files p)))"

text \<open>The last well-formed file called \<open>n\<close> in a list of files.\<close>

definition last_named :: "string \<Rightarrow> File list \<Rightarrow> File option" where
  "last_named n fs = find (\<lambda>f. wellformed f \<and> Name f = n) (rev fs)"

text \<open>The file map of an entry's identifier after the entry's well-formed files have been
  stored, in order, over the files already recorded for that identifier.\<close>

definition merged_files :: "Payload \<Rightarrow> (string, Accession) fmap \<Rightarrow> (string, File) fmap" where
  "merged_files p m =
     fold (\<lambda>f. fmupd (Name f) f) (filter wellformed (Files p))
       (case fmlookup m (ID p) of Some a \<Rightarrow> AccFiles a | None \<Rightarrow> fmempty)"

text \<open>Every file is stored under its own name and has a link.\<close>

definition files_ok :: "(string, File) fmap \<Rightarrow> bool" where
  "files_ok fm = fmpred (\<lambda>n f. Name f = n \<and> Link f \<noteq> []) fm"

text \<open>Every accession is stored under its own identifier, and its files are well stored.\<close>

definition accs_ok :: "(string, Accession) fmap \<Rightarrow> bool" where
  "accs_ok m = fmpred (\<lambda>k a. AccID a = k \<and> files_ok (AccFiles a)) m"


text \<open>The files of the entries that have identifier \<open>k\<close> and status 200, in response order.\<close>

definition files_of :: "string \<Rightarrow> Payload list \<Rightarrow> File list" where
  "files_of k ps = concat (map Files (filter (\<lambda>p. ID p = k \<and> Status p = 200) ps))"

text \<open>The files recorded for \<open>k\<close> in a result map; none when \<open>k\<close> is not a key.\<close>

definition recorded :: "(string, Accession) fmap \<Rightarrow> string \<Rightarrow> (string, File) fmap" where
  "recorded m k = (case fmlookup m k of Some a \<Rightarrow> AccFiles a | None \<Rightarrow> fmempty)"


section \<open>Sample inputs\<close>

text \<open>A rendering of instants, for running the functions on concrete inputs.\<close>

definition sample_tstr :: "Time \<Rightarrow> string" where
  "sample_tstr t = ''0001-01-01 00:00:00 +0000 UTC''"

definition file_a :: File where
  "file_a = \<lparr>Name = ''a.bam'', Size = ''12'', ModifiedDate = Time 0, Md5Hash = ''d41d'',
             Link = ''http://x/a.bam'', ExpirationDate = Time 0, Service = ''s3''\<rparr>"

definition entry_ok :: Payload where
  "entry_ok = \<lparr>ID = ''SRR000001'', Status = 200, Message = [], Files = [file_a]\<rparr>"

definition entry_404 :: Payload where
  "entry_404 = \<lparr>ID = ''SRR000002'', Status = 404, Message = ''no data'', Files = []\<rparr>"


definition file_a2 :: File where
  "file_a2 = \<lparr>Name = ''a.bam'', Size = ''34'', ModifiedDate = Time 1, Md5Hash = ''9e10'',
              Link = ''http://y/a.bam'', ExpirationDate = Time 2, Service = ''gs''\<rparr>"

definition file_b :: File where
  "file_b = \<lparr>Name = ''b.bai'', Size = ''5'', ModifiedDate = Time 1, Md5Hash = ''77aa'',
             Link = ''http://y/b.bai'', ExpirationDate = Time 2, Service = ''gs''\<rparr>"

definition file_nolink :: File where
  "file_nolink = \<lparr>Name = ''c.bam'', Size = ''7'', ModifiedDate = Time 0, Md5Hash = ''0f0f'',
                  Link = [], ExpirationDate = Time 0, Service = ''s3''\<rparr>"

definition file_noname :: File where
  "file_noname = \<lparr>Name = [], Size = ''7'', ModifiedDate = Time 0, Md5Hash = ''0f0f'',
                  Link = ''http://x/d'', ExpirationDate = Time 0, Service = ''s3''\<rparr>"

definition entry_more :: Payload where
  "entry_more = \<lparr>ID = ''SRR000001'', Status = 200, Message = [], Files = [file_a2, file_b]\<rparr>"

definition entry_gone :: Payload where
  "entry_gone = \<lparr>ID = ''SRR000001'', Status = 404, Message = ''gone'', Files = []\<rparr>"

definition entry_malformed :: Payload where
  "entry_malformed =
     \<lparr>ID = ''SRR000003'', Status = 200, Message = [], Files = [file_nolink, file_noname]\<rparr>"


text \<open>
  Response bodies, and what \<open>json.Unmarshal\<close> makes of them: the sample decoders are
  \<open>json.Unmarshal\<close> on these bodies and fail on every other text. A date that is absent
  from the JSON leaves the zero instant, \<open>Time 0\<close>.
\<close>

definition body_ok :: string where
  \<open>body_ok = ''[{"accession":"SRR000001","status":200,"files":[{"name":"a.bam","size":"12","md5":"d41d","link":"http://x/a.bam","service":"s3"}]}]''\<close>

definition body_mixed :: string where
  \<open>body_mixed = ''[{"accession":"SRR000001","status":200,"files":[{"name":"a.bam","size":"12","md5":"d41d","link":"http://x/a.bam","service":"s3"}]},{"accession":"SRR000002","status":404,"message":"no data"}]''\<close>

definition body_object_ok :: string where
  \<open>body_object_ok = ''{"accession":"SRR000001","status":200,"files":[{"name":"a.bam","size":"12","md5":"d41d","link":"http://x/a.bam","service":"s3"}]}''\<close>

definition body_object_404 :: string where
  \<open>body_object_404 = ''{"status":404,"message":"not found"}''\<close>

definition body_html :: string where
  \<open>body_html = ''<html>Bad Gateway</html>''\<close>

definition object_404 :: Payload where
  "object_404 = \<lparr>ID = [], Status = 404, Message = ''not found'', Files = []\<rparr>"

definition sample_unmarshal_list :: "string \<Rightarrow> Payload list option" where
  "sample_unmarshal_list b =
     (if b = body_ok then Some [entry_ok]
      else if b = body_mixed then Some [entry_ok, entry_404]
      else None)"

definition sample_unmarshal_one :: "string \<Rightarrow> Payload option" where
  "sample_unmarshal_one b =
     (if b = body_object_ok then Some entry_ok
      else if b = body_object_404 then Some object_404
      else None)"

definition respond :: "string \<Rightarrow> exchange" where
  "respond b =
     Responded \<lparr>StatusCode = 200, StatusText = ''200 OK'', ContentType = ''application/json'',
                Body = Some b\<rparr>"


section \<open>Properties of the loops\<close>

lemma payload_loop_append:
  "payload_loop tstr (xs @ ys) s = payload_loop tstr ys (payload_loop tstr xs s)"
  by (induction xs arbitrary: s) simp_all

lemma payload_step_errmsg:
  "errmsg (payload_step tstr p s) =
     errmsg s @ (if Status p \<noteq> 200 then errmsg_status p else [])"
  by (simp add: payload_step_def Let_def split: prod.splits option.splits)

lemma payload_loop_errmsg:
  "errmsg (payload_loop tstr ps s) =
     errmsg s @ concat (map errmsg_status (filter (\<lambda>p. Status p \<noteq> 200) ps))"
  by (induction ps arbitrary: s) (simp_all add: payload_step_errmsg)

lemma fmdom_empty_iff: "fmdom m = {||} \<longleftrightarrow> m = fmempty"
  by (metis fmrestrict_fset_dom fmrestrict_fset_null fmdom_empty)

lemma fcard_fmdom_less_1: "fcard (fmdom m) < 1 \<longleftrightarrow> m = fmempty"
  by (simp add: fcard_0_eq fmdom_empty_iff)

lemma sanitize_unfold:
  "sanitize tstr payload =
     (accs (payload_loop tstr payload init_state),
      msg (payload_loop tstr payload init_state),
      if accs (payload_loop tstr payload init_state) = fmempty
      then Some (err_no_mountable (errmsg (payload_loop tstr payload init_state)))
      else None)"
  unfolding sanitize_def Let_def fcard_fmdom_less_1 ..


lemma files_loop_fst:
  "fst (files_loop tstr pid fs (fm, m)) =
     fold (\<lambda>f. fmupd (Name f) f) (filter wellformed fs) fm"
  by (induction fs arbitrary: fm m) (simp_all add: wellformed_def)

lemma files_loop_snd:
  "snd (files_loop tstr pid fs (fm, m)) = m @ concat (map (file_issue tstr pid) fs)"
  by (induction fs arbitrary: fm m) (simp_all add: file_issue_def)

lemma files_loop_eq:
  "files_loop tstr pid fs (fm, m) =
     (fold (\<lambda>f. fmupd (Name f) f) (filter wellformed fs) fm,
      m @ concat (map (file_issue tstr pid) fs))"
  by (simp add: prod_eq_iff files_loop_fst files_loop_snd)

lemma find_snoc:
  "find P (xs @ [x]) = (case find P xs of Some y \<Rightarrow> Some y | None \<Rightarrow> if P x then Some x else None)"
  by (induction xs) simp_all

lemma fold_upsert_lookup:
  "fmlookup (fold (\<lambda>f. fmupd (Name f) f) (filter wellformed fs) fm) n =
     (case last_named n fs of Some f \<Rightarrow> Some f | None \<Rightarrow> fmlookup fm n)"
proof (induction fs arbitrary: fm)
  case Nil
  then show ?case by (simp add: last_named_def)
next
  case (Cons f fs)
  show ?case
    by (simp add: Cons.IH) (simp add: last_named_def find_snoc split: option.splits)
qed

lemma files_ok_upd: "files_ok fm \<Longrightarrow> Link f \<noteq> [] \<Longrightarrow> files_ok (fmupd (Name f) f fm)"
  unfolding files_ok_def by (rule fmpred_upd) simp_all

lemma fold_upsert_files_ok:
  "files_ok fm \<Longrightarrow> files_ok (fold (\<lambda>f. fmupd (Name f) f) (filter wellformed fs) fm)"
  by (induction fs arbitrary: fm) (simp_all add: files_ok_upd wellformed_def)

lemma accs_ok_upd:
  "accs_ok m \<Longrightarrow> files_ok fm \<Longrightarrow> accs_ok (fmupd k \<lparr>AccID = k, AccFiles = fm\<rparr> m)"
  unfolding accs_ok_def by (rule fmpred_upd) simp_all

lemma accs_okD:
  "accs_ok m \<Longrightarrow> fmlookup m k = Some a \<Longrightarrow> AccID a = k \<and> files_ok (AccFiles a)"
  unfolding accs_ok_def by (drule (1) fmpredD) simp

lemma payload_step_not_ok:
  "Status p \<noteq> 200 \<Longrightarrow>
     payload_step tstr p s = s\<lparr>msg := msg s @ issue_status p, errmsg := errmsg s @ errmsg_status p\<rparr>"
  by (simp add: payload_step_def)

lemma payload_step_ok:
  assumes "Status p = 200" and "accs_ok (accs s)"
  shows "payload_step tstr p s =
     s\<lparr>accs := fmupd (ID p) \<lparr>AccID = ID p, AccFiles = merged_files p (accs s)\<rparr> (accs s),
       msg := msg s @ concat (map (file_issue tstr (ID p)) (Files p))\<rparr>"
proof (cases "fmlookup (accs s) (ID p)")
  case None
  then show ?thesis
    using assms by (simp add: payload_step_def files_loop_eq merged_files_def)
next
  case (Some a)
  with assms(2) have id: "AccID a = ID p"
    by (simp add: accs_okD)
  obtain fm0 where a: "a = \<lparr>AccID = ID p, AccFiles = fm0\<rparr>"
    using id by (cases a) simp
  show ?thesis
    using assms Some unfolding a by (simp add: payload_step_def files_loop_eq merged_files_def)
qed

lemma payload_step_msg:
  "msg (payload_step tstr p s) = msg s @ entry_issues tstr p"
proof (cases "Status p = 200")
  case True
  then show ?thesis
    by (cases "fmlookup (accs s) (ID p)")
       (simp_all add: payload_step_def entry_issues_def files_loop_eq)
next
  case False
  then show ?thesis by (simp add: payload_step_not_ok entry_issues_def)
qed

lemma payload_loop_msg:
  "msg (payload_loop tstr ps s) = msg s @ concat (map (entry_issues tstr) ps)"
  by (induction ps arbitrary: s) (simp_all add: payload_step_msg)

lemma merged_files_ok: "accs_ok m \<Longrightarrow> files_ok (merged_files p m)"
  unfolding merged_files_def
  by (rule fold_upsert_files_ok) (auto simp: files_ok_def dest: accs_okD split: option.splits)

lemma payload_step_accs_ok: "accs_ok (accs s) \<Longrightarrow> accs_ok (accs (payload_step tstr p s))"
proof (cases "Status p = 200")
  case True
  assume ok: "accs_ok (accs s)"
  from merged_files_ok [OF ok] ok show ?thesis
    by (simp add: payload_step_ok [OF True ok] accs_ok_upd)
next
  case False
  assume "accs_ok (accs s)"
  then show ?thesis using False by (simp add: payload_step_not_ok)
qed

lemma payload_loop_accs_ok: "accs_ok (accs s) \<Longrightarrow> accs_ok (accs (payload_loop tstr ps s))"
  by (induction ps arbitrary: s) (simp_all add: payload_step_accs_ok)

lemma init_accs_ok: "accs_ok (accs init_state)"
  by (simp add: init_state_def accs_ok_def)

lemma payload_step_other:
  assumes "accs_ok (accs s)" and "\<not> (ID p = k \<and> Status p = 200)"
  shows "fmlookup (accs (payload_step tstr p s)) k = fmlookup (accs s) k"
proof (cases "Status p = 200")
  case True
  with assms(2) have "ID p \<noteq> k" by simp
  then show ?thesis by (simp add: payload_step_ok [OF True assms(1)])
next
  case False
  then show ?thesis by (simp add: payload_step_not_ok)
qed

lemma payload_loop_other:
  "accs_ok (accs s) \<Longrightarrow> \<forall>p\<in>set ps. \<not> (ID p = k \<and> Status p = 200) \<Longrightarrow>
     fmlookup (accs (payload_loop tstr ps s)) k = fmlookup (accs s) k"
  by (induction ps arbitrary: s) (simp_all add: payload_step_other payload_step_accs_ok)

lemma payload_step_dom:
  "accs_ok (accs s) \<Longrightarrow>
     fmdom' (accs (payload_step tstr p s)) =
       fmdom' (accs s) \<union> (if Status p = 200 then {ID p} else {})"
  by (cases "Status p = 200") (simp_all add: payload_step_ok payload_step_not_ok)

lemma payload_loop_dom:
  "accs_ok (accs s) \<Longrightarrow>
     fmdom' (accs (payload_loop tstr ps s)) =
       fmdom' (accs s) \<union> {ID p | p. p \<in> set ps \<and> Status p = 200}"
proof (induction ps arbitrary: s)
  case Nil
  then show ?case by simp
next
  case (Cons p ps)
  from Cons.prems have "accs_ok (accs (payload_step tstr p s))"
    by (rule payload_step_accs_ok)
  from Cons.IH [OF this] show ?case
    by (auto simp: payload_step_dom [OF Cons.prems])
qed


lemma merged_files_recorded:
  "merged_files p m = fold (\<lambda>f. fmupd (Name f) f) (filter wellformed (Files p)) (recorded m (ID p))"
  by (simp add: merged_files_def recorded_def)

lemma files_of_Nil: "files_of k [] = []"
  by (simp add: files_of_def)

lemma files_of_Cons:
  "files_of k (p # ps) = (if ID p = k \<and> Status p = 200 then Files p else []) @ files_of k ps"
  by (simp add: files_of_def)

lemma files_of_none:
  "\<forall>p\<in>set ps. \<not> (ID p = k \<and> Status p = 200) \<Longrightarrow> files_of k ps = []"
  by (induction ps) (auto simp: files_of_Cons files_of_Nil)

lemma payload_loop_lookup:
  "accs_ok (accs s) \<Longrightarrow>
     fmlookup (accs (payload_loop tstr ps s)) k =
       (if \<exists>p\<in>set ps. ID p = k \<and> Status p = 200
        then Some \<lparr>AccID = k,
                   AccFiles = fold (\<lambda>f. fmupd (Name f) f) (filter wellformed (files_of k ps))
                                (recorded (accs s) k)\<rparr>
        else fmlookup (accs s) k)"
proof (induction ps arbitrary: s)
  case Nil
  then show ?case by simp
next
  case (Cons p ps)
  let ?s = "payload_step tstr p s"
  have ok: "accs_ok (accs ?s)" using Cons.prems by (rule payload_step_accs_ok)
  note IH = Cons.IH [OF ok]
  show ?case
  proof (cases "ID p = k \<and> Status p = 200")
    case True
    then have st: "Status p = 200" and id: "ID p = k" by simp_all
    have look: "fmlookup (accs ?s) k = Some \<lparr>AccID = k, AccFiles = merged_files p (accs s)\<rparr>"
      using id by (simp add: payload_step_ok [OF st Cons.prems])
    then have rec: "recorded (accs ?s) k = merged_files p (accs s)"
      by (simp add: recorded_def)
    show ?thesis
      using True id by (auto simp: IH look rec files_of_Cons merged_files_recorded files_of_none)
  next
    case False
    have same: "fmlookup (accs ?s) k = fmlookup (accs s) k"
      using Cons.prems False by (rule payload_step_other)
    then have rec: "recorded (accs ?s) k = recorded (accs s) k"
      by (simp add: recorded_def)
    show ?thesis
      using False by (auto simp: IH same rec files_of_Cons)
  qed
qed

lemma sanitize_lookup:
  "fmlookup (fst (sanitize tstr payload)) k =
     (if \<exists>p\<in>set payload. ID p = k \<and> Status p = 200
      then Some \<lparr>AccID = k,
                 AccFiles = fold (\<lambda>f. fmupd (Name f) f) (filter wellformed (files_of k payload))
                              fmempty\<rparr>
      else None)"
  using payload_loop_lookup [OF init_accs_ok, of tstr payload k]
  by (simp add: sanitize_unfold) (simp add: init_state_def recorded_def)

lemma files_of_all_malformed:
  "\<forall>p\<in>set ps. ID p = k \<and> Status p = 200 \<longrightarrow> filter wellformed (Files p) = [] \<Longrightarrow>
     filter wellformed (files_of k ps) = []"
  by (induction ps) (auto simp: files_of_Cons files_of_Nil)

lemma issue_status_nonempty: "issue_status p \<noteq> []"
  by (simp add: issue_status_def)

lemma errmsg_status_nonempty: "errmsg_status p \<noteq> []"
  by (simp add: errmsg_status_def)


lemma files_of_append: "files_of k (xs @ ys) = files_of k xs @ files_of k ys"
  by (simp add: files_of_def)

lemma find_app:
  "find P (xs @ ys) = (case find P xs of Some x \<Rightarrow> Some x | None \<Rightarrow> find P ys)"
  by (induction xs) simp_all

lemma last_named_append:
  "last_named n (fs @ gs) =
     (case last_named n gs of Some f \<Rightarrow> Some f | None \<Rightarrow> last_named n fs)"
  unfolding last_named_def by (simp add: find_app)

lemma last_named_None_iff:
  "last_named n fs = None \<longleftrightarrow> \<not> (\<exists>f\<in>set fs. wellformed f \<and> Name f = n)"
  by (auto simp: last_named_def find_None_iff)

lemma sanitize_files_lookup:
  "\<exists>p\<in>set payload. ID p = k \<and> Status p = 200 \<Longrightarrow>
     \<exists>acc. fmlookup (fst (sanitize tstr payload)) k = Some acc \<and> AccID acc = k \<and>
       (\<forall>n. fmlookup (AccFiles acc) n = last_named n (files_of k payload))"
  by (simp add: sanitize_lookup fold_upsert_lookup split: option.splits)

lemma sanitize_msg:
  "fst (snd (sanitize tstr payload)) = concat (map (entry_issues tstr) payload)"
  by (simp add: sanitize_unfold payload_loop_msg init_state_def)

lemma sanitize_drop_failed:
  assumes "Status p \<noteq> 200"
  shows "fst (sanitize tstr (xs @ p # ys)) = fst (sanitize tstr (xs @ ys))"
proof (rule fmap_ext)
  fix k
  have "files_of k (xs @ p # ys) = files_of k (xs @ ys)"
    using assms by (simp add: files_of_append files_of_Cons)
  moreover have "(\<exists>q\<in>set (xs @ p # ys). ID q = k \<and> Status q = 200) \<longleftrightarrow>
                 (\<exists>q\<in>set (xs @ ys). ID q = k \<and> Status q = 200)"
    using assms by auto
  ultimately show "fmlookup (fst (sanitize tstr (xs @ p # ys))) k =
                   fmlookup (fst (sanitize tstr (xs @ ys))) k"
    unfolding sanitize_lookup by simp
qed


lemma err_read_not_err_api: "err_read \<noteq> err_api st ms"
  by (simp add: err_read_def err_api_def)

lemma ResolveNames_body:
  assumes "StatusCode resp = 200" and "ContentType resp = ''application/json''"
    and "Body resp = Some bytes"
  shows "ResolveNames ul uo tstr (Responded resp) =
     (case ul bytes of
        None \<Rightarrow>
          (case uo bytes of
             None \<Rightarrow> ((fmempty, Some err_read), [])
           | Some errPayload \<Rightarrow>
               ((fmempty, Some (err_api (Status errPayload) (Message errPayload))), []))
      | Some payload \<Rightarrow>
          (case sanitize tstr payload of
             (accessions, m, err) \<Rightarrow>
               ((accessions, err), if m \<noteq> [] \<and> err = None then m @ [CHR 0x0A] else [])))"
  using assms by (simp add: ResolveNames_def)


section \<open>The claims\<close>

text \<open>
  C1. \<open>sanitize\<close> returns an error exactly when the map it built is empty. The error
  then carries the text collected in \<open>errmsg\<close>: identifier, status and message of every
  entry whose status is not 200, in response order. With a non-empty map there is no
  error, whatever was collected.
\<close>

theorem sanitize_error_iff_empty:
  "sanitize tstr payload = (a, m, e) \<Longrightarrow>
     (e \<noteq> None \<longleftrightarrow> a = fmempty) \<and>
     (a = fmempty \<longrightarrow>
        e = Some (err_no_mountable
                   (concat (map errmsg_status (filter (\<lambda>p. Status p \<noteq> 200) payload))))) \<and>
     (a \<noteq> fmempty \<longrightarrow> e = None)"
  by (auto simp: sanitize_unfold payload_loop_errmsg init_state_def split: if_splits)

theorem sanitize_error_iff_empty_witness:
  "sanitize sample_tstr [entry_404] =
     (fmempty, issue_status entry_404, Some (err_no_mountable (errmsg_status entry_404))) \<and>
   err_no_mountable (errmsg_status entry_404) =
     ''API returned no mountable accessions'' @ [CHR 0x0A] @ ''SRR000002: 404'' @ [CHR 0x09]
       @ ''no data''"
proof -
  have run: "sanitize sample_tstr [entry_404] =
      (fmempty, issue_status entry_404, Some (err_no_mountable (errmsg_status entry_404)))"
    by code_simp
  have rendered: "err_no_mountable (errmsg_status entry_404) =
      ''API returned no mountable accessions'' @ [CHR 0x0A] @ ''SRR000002: 404'' @ [CHR 0x09]
        @ ''no data''"
    by code_simp
  from sanitize_error_iff_empty [OF run] run rendered show ?thesis by simp
qed

text \<open>
  C2. As stated the claim fails: a status-200 entry whose files are all malformed still
  puts its identifier into the map, so there is no error; and the empty list fails with
  nothing collected. What holds: when every entry has a status other than 200 the map is
  empty and \<open>sanitize\<close> returns the error, with \<open>msg\<close> and \<open>errmsg\<close> non-empty as soon
  as the list is non-empty; when some entry has status 200 the map is non-empty and no
  error is returned.
\<close>

theorem all_failed_fails:
  "sanitize tstr payload = (a, m, e) \<Longrightarrow>
     ((\<forall>p\<in>set payload. Status p \<noteq> 200) \<longrightarrow>
        a = fmempty \<and> e = Some (err_no_mountable (concat (map errmsg_status payload))) \<and>
        (payload \<noteq> [] \<longrightarrow> m \<noteq> [] \<and> concat (map errmsg_status payload) \<noteq> [])) \<and>
     ((\<exists>p\<in>set payload. Status p = 200) \<longrightarrow> a \<noteq> fmempty \<and> e = None)"
proof -
  assume r: "sanitize tstr payload = (a, m, e)"
  then have a: "a = fst (sanitize tstr payload)" by simp
  from r have m: "m = concat (map (entry_issues tstr) payload)"
    by (simp add: sanitize_unfold payload_loop_msg init_state_def)
  from r have e: "e = (if a = fmempty
                       then Some (err_no_mountable
                              (concat (map errmsg_status (filter (\<lambda>p. Status p \<noteq> 200) payload))))
                       else None)"
    by (auto simp: sanitize_unfold payload_loop_errmsg init_state_def)
  have none: "a = fmempty" if "\<forall>p\<in>set payload. Status p \<noteq> 200"
  proof (rule fmap_ext)
    fix k
    from that show "fmlookup a k = fmlookup fmempty k"
      unfolding a sanitize_lookup by auto
  qed
  have some: "a \<noteq> fmempty" if "\<exists>p\<in>set payload. Status p = 200"
  proof -
    from that obtain p where p: "p \<in> set payload" "Status p = 200" by blast
    then have "fmlookup a (ID p) \<noteq> None"
      unfolding a sanitize_lookup by auto
    then show ?thesis by auto
  qed
  have trail: "m \<noteq> [] \<and> concat (map errmsg_status payload) \<noteq> []"
    if bad: "\<forall>p\<in>set payload. Status p \<noteq> 200" and ne: "payload \<noteq> []"
  proof -
    from ne obtain p ps where pl: "payload = p # ps" by (cases payload) auto
    with bad have "Status p \<noteq> 200" by simp
    then show ?thesis
      unfolding m pl by (simp add: entry_issues_def issue_status_nonempty errmsg_status_nonempty)
  qed
  have flt: "filter (\<lambda>p. Status p \<noteq> 200) payload = payload"
    if "\<forall>p\<in>set payload. Status p \<noteq> 200"
    using that by (simp add: filter_id_conv)
  show ?thesis using none some trail flt e by auto
qed

theorem all_failed_fails_witness:
  "Status entry_404 \<noteq> 200 \<and> Status entry_gone \<noteq> 200 \<and>
   sanitize sample_tstr [entry_404, entry_gone] =
     (fmempty, issue_status entry_404 @ issue_status entry_gone,
      Some (err_no_mountable (errmsg_status entry_404 @ errmsg_status entry_gone))) \<and>
   issue_status entry_404 @ issue_status entry_gone \<noteq> [] \<and>
   Status entry_malformed = 200 \<and>
   snd (snd (sanitize sample_tstr [entry_malformed])) = None"
proof -
  have bad: "\<forall>p\<in>set [entry_404, entry_gone]. Status p \<noteq> 200"
    by (simp add: entry_404_def entry_gone_def)
  have run: "sanitize sample_tstr [entry_404, entry_gone] =
      (fmempty, issue_status entry_404 @ issue_status entry_gone,
       Some (err_no_mountable (errmsg_status entry_404 @ errmsg_status entry_gone)))"
    by code_simp
  have good: "\<exists>p\<in>set [entry_malformed]. Status p = 200"
    by (simp add: entry_malformed_def)
  have run2: "sanitize sample_tstr [entry_malformed] =
      (fst (sanitize sample_tstr [entry_malformed]),
       fst (snd (sanitize sample_tstr [entry_malformed])),
       snd (snd (sanitize sample_tstr [entry_malformed])))"
    by simp
  from all_failed_fails [OF run] all_failed_fails [OF run2] bad good run
  show ?thesis by (simp add: entry_404_def entry_gone_def entry_malformed_def)
qed

theorem all_failed_fails_counterexample:
  "Status entry_malformed = 200 \<and>
   filter wellformed (Files entry_malformed) = [] \<and>
   snd (snd (sanitize sample_tstr [entry_malformed])) = None \<and>
   fmlookup (fst (sanitize sample_tstr [entry_malformed])) ''SRR000003'' =
     Some \<lparr>AccID = ''SRR000003'', AccFiles = fmempty\<rparr> \<and>
   sanitize sample_tstr [] = (fmempty, [], Some (err_no_mountable []))"
  by code_simp

text \<open>
  C3. An identifier is a key of the result map exactly when some entry with that
  identifier has status 200; when all the status-200 entries of an identifier carry only
  malformed files, the identifier is still a key, with an empty file map.
\<close>

theorem sanitize_keys:
  "sanitize tstr payload = (a, m, e) \<Longrightarrow>
     (k |\<in>| fmdom a \<longleftrightarrow> (\<exists>p\<in>set payload. ID p = k \<and> Status p = 200)) \<and>
     ((\<exists>p\<in>set payload. ID p = k \<and> Status p = 200) \<and>
      (\<forall>p\<in>set payload. ID p = k \<and> Status p = 200 \<longrightarrow>
         (\<forall>f\<in>set (Files p). Name f = [] \<or> Link f = [])) \<longrightarrow>
        fmlookup a k = Some \<lparr>AccID = k, AccFiles = fmempty\<rparr>)"
proof -
  assume r: "sanitize tstr payload = (a, m, e)"
  then have a: "a = fst (sanitize tstr payload)" by simp
  have keys: "k |\<in>| fmdom a \<longleftrightarrow> (\<exists>p\<in>set payload. ID p = k \<and> Status p = 200)"
    unfolding a fmlookup_dom_iff sanitize_lookup by simp
  have empty: "fmlookup a k = Some \<lparr>AccID = k, AccFiles = fmempty\<rparr>"
    if some: "\<exists>p\<in>set payload. ID p = k \<and> Status p = 200"
    and bad: "\<forall>p\<in>set payload. ID p = k \<and> Status p = 200 \<longrightarrow>
                (\<forall>f\<in>set (Files p). Name f = [] \<or> Link f = [])"
  proof -
    from bad have "\<forall>p\<in>set payload. ID p = k \<and> Status p = 200 \<longrightarrow>
                     filter wellformed (Files p) = []"
      by (auto simp: filter_empty_conv wellformed_def)
    then have "filter wellformed (files_of k payload) = []"
      by (rule files_of_all_malformed)
    with some show ?thesis unfolding a sanitize_lookup by simp
  qed
  from keys empty show ?thesis by blast
qed

theorem sanitize_keys_witness:
  "ID entry_malformed = ''SRR000003'' \<and> Status entry_malformed = 200 \<and>
   Files entry_malformed = [file_nolink, file_noname] \<and>
   Link file_nolink = [] \<and> Name file_noname = [] \<and>
   ''SRR000003'' |\<in>| fmdom (fst (sanitize sample_tstr [entry_ok, entry_malformed, entry_404])) \<and>
   fmlookup (fst (sanitize sample_tstr [entry_ok, entry_malformed, entry_404])) ''SRR000003'' =
     Some \<lparr>AccID = ''SRR000003'', AccFiles = fmempty\<rparr>"
proof -
  let ?payload = "[entry_ok, entry_malformed, entry_404]"
  have some: "\<exists>p\<in>set ?payload. ID p = ''SRR000003'' \<and> Status p = 200"
    by (simp add: entry_ok_def entry_malformed_def entry_404_def)
  have bad: "\<forall>p\<in>set ?payload. ID p = ''SRR000003'' \<and> Status p = 200 \<longrightarrow>
               (\<forall>f\<in>set (Files p). Name f = [] \<or> Link f = [])"
    by (simp add: entry_ok_def entry_malformed_def entry_404_def file_nolink_def file_noname_def)
  have run: "sanitize sample_tstr ?payload =
      (fst (sanitize sample_tstr ?payload), fst (snd (sanitize sample_tstr ?payload)),
       snd (snd (sanitize sample_tstr ?payload)))"
    by simp
  have shape: "ID entry_malformed = ''SRR000003'' \<and> Status entry_malformed = 200 \<and>
      Files entry_malformed = [file_nolink, file_noname] \<and>
      Link file_nolink = [] \<and> Name file_noname = []"
    by (simp add: entry_malformed_def file_nolink_def file_noname_def)
  from sanitize_keys [OF run, of "''SRR000003''"] some bad shape show ?thesis by blast
qed

text \<open>
  C9. After any prefix of the payload list, and so in the map that \<open>sanitize\<close> returns,
  every accession is stored under its own identifier, and every file of an accession is
  stored under its own name and has a non-empty link.
\<close>

theorem result_map_invariant:
  "(fmlookup (accs (payload_loop tstr (take i payload) init_state)) k = Some a \<longrightarrow>
      AccID a = k \<and> (fmlookup (AccFiles a) n = Some f \<longrightarrow> Name f = n \<and> Link f \<noteq> [])) \<and>
   (fmlookup (fst (sanitize tstr payload)) k = Some a \<longrightarrow>
      AccID a = k \<and> (fmlookup (AccFiles a) n = Some f \<longrightarrow> Name f = n \<and> Link f \<noteq> []))"
proof -
  have gen: "AccID a = k \<and> (fmlookup (AccFiles a) n = Some f \<longrightarrow> Name f = n \<and> Link f \<noteq> [])"
    if "fmlookup (accs (payload_loop tstr ps init_state)) k = Some a" for ps
  proof -
    have "accs_ok (accs (payload_loop tstr ps init_state))"
      using init_accs_ok by (rule payload_loop_accs_ok)
    from accs_okD [OF this that] show ?thesis
      by (auto simp: files_ok_def dest: fmpredD)
  qed
  show ?thesis
    using gen [of "take i payload"] gen [of payload] by (simp add: sanitize_unfold)
qed

theorem result_map_invariant_witness:
  "fmlookup (accs (payload_loop sample_tstr (take 1 [entry_ok, entry_404]) init_state))
     ''SRR000001'' = Some \<lparr>AccID = ''SRR000001'', AccFiles = fmupd ''a.bam'' file_a fmempty\<rparr> \<and>
   fmlookup (fst (sanitize sample_tstr [entry_ok, entry_404])) ''SRR000001'' =
     Some \<lparr>AccID = ''SRR000001'', AccFiles = fmupd ''a.bam'' file_a fmempty\<rparr> \<and>
   fmlookup (fmupd ''a.bam'' file_a fmempty) ''a.bam'' = Some file_a \<and>
   Name file_a = ''a.bam'' \<and> Link file_a \<noteq> []"
proof -
  have pre: "fmlookup (accs (payload_loop sample_tstr (take 1 [entry_ok, entry_404]) init_state))
      ''SRR000001'' = Some \<lparr>AccID = ''SRR000001'', AccFiles = fmupd ''a.bam'' file_a fmempty\<rparr>"
    by code_simp
  have fin: "fmlookup (fst (sanitize sample_tstr [entry_ok, entry_404])) ''SRR000001'' =
      Some \<lparr>AccID = ''SRR000001'', AccFiles = fmupd ''a.bam'' file_a fmempty\<rparr>"
    by code_simp
  from result_map_invariant [of sample_tstr 1 "[entry_ok, entry_404]" "''SRR000001''"
      "\<lparr>AccID = ''SRR000001'', AccFiles = fmupd ''a.bam'' file_a fmempty\<rparr>" "''a.bam''" file_a]
    pre fin
  show ?thesis by simp
qed

text \<open>
  C5. As stated the claim fails: the identifier of an entry whose status is not 200 is a
  key of the result map whenever another entry with the same identifier has status 200.
  What holds for such an entry: its identifier is a key exactly when some other entry
  with that identifier has status 200; \<open>msg\<close> is what the entries before it add, then
  the one line of nr.go line 124 with its identifier and message, then what the entries
  after it add; the iteration that processes it leaves \<open>accs\<close> as it was, and the map
  returned is the one returned without the entry.
\<close>

theorem failed_entry:
  assumes "Status p \<noteq> 200" and "sanitize tstr (xs @ p # ys) = (a, m, e)"
  shows "(ID p |\<in>| fmdom a \<longleftrightarrow> (\<exists>q\<in>set (xs @ ys). ID q = ID p \<and> Status q = 200)) \<and>
         m = fst (snd (sanitize tstr xs)) @ issue_status p @ fst (snd (sanitize tstr ys)) \<and>
         payload_step tstr p s =
           s\<lparr>msg := msg s @ issue_status p, errmsg := errmsg s @ errmsg_status p\<rparr> \<and>
         accs (payload_step tstr p s) = accs s \<and>
         a = fst (sanitize tstr (xs @ ys))"
proof -
  from assms(2) have a: "a = fst (sanitize tstr (xs @ p # ys))"
    and m: "m = fst (snd (sanitize tstr (xs @ p # ys)))" by simp_all
  have drop: "a = fst (sanitize tstr (xs @ ys))"
    unfolding a using assms(1) by (rule sanitize_drop_failed)
  have keys: "ID p |\<in>| fmdom a \<longleftrightarrow> (\<exists>q\<in>set (xs @ ys). ID q = ID p \<and> Status q = 200)"
    unfolding drop fmlookup_dom_iff sanitize_lookup by simp
  have line: "m = fst (snd (sanitize tstr xs)) @ issue_status p @ fst (snd (sanitize tstr ys))"
    unfolding m sanitize_msg using assms(1) by (simp add: entry_issues_def)
  have step: "payload_step tstr p s =
      s\<lparr>msg := msg s @ issue_status p, errmsg := errmsg s @ errmsg_status p\<rparr>"
    using assms(1) by (rule payload_step_not_ok)
  from keys line step drop show ?thesis by simp
qed

theorem failed_entry_counterexample:
  "Status entry_gone \<noteq> 200 \<and>
   ID entry_gone |\<in>| fmdom (fst (sanitize sample_tstr [entry_ok, entry_gone]))"
  by code_simp

theorem failed_entry_witness:
  "Status entry_gone \<noteq> 200 \<and>
   sanitize sample_tstr ([entry_ok] @ entry_gone # [entry_404]) =
     (fmupd ''SRR000001'' \<lparr>AccID = ''SRR000001'', AccFiles = fmupd ''a.bam'' file_a fmempty\<rparr> fmempty,
      issue_status entry_gone @ issue_status entry_404, None) \<and>
   ID entry_gone |\<in>| fmdom (fst (sanitize sample_tstr ([entry_ok] @ [entry_404]))) \<and>
   accs (payload_step sample_tstr entry_gone init_state) = fmempty"
proof -
  have st: "Status entry_gone \<noteq> 200" by (simp add: entry_gone_def)
  have run: "sanitize sample_tstr ([entry_ok] @ entry_gone # [entry_404]) =
     (fmupd ''SRR000001'' \<lparr>AccID = ''SRR000001'', AccFiles = fmupd ''a.bam'' file_a fmempty\<rparr> fmempty,
      issue_status entry_gone @ issue_status entry_404, None)"
    by code_simp
  have dom: "ID entry_gone |\<in>| fmdom (fmupd ''SRR000001''
      \<lparr>AccID = ''SRR000001'', AccFiles = fmupd ''a.bam'' file_a fmempty\<rparr> fmempty)"
    by (simp add: entry_gone_def)
  from failed_entry [OF st run, of init_state] st run dom show ?thesis
    by (simp add: init_state_def)
qed

text \<open>
  C6. The inner loop, file by file: a file with an empty link adds the line of nr.go
  line 136 and is skipped; otherwise a file with an empty name adds the line of line 140
  and is skipped; otherwise the file is stored under its name, replacing a file already
  stored there. Over a whole list the loop stores exactly the well-formed files, in
  order, so the map is the one obtained from the list without its malformed files, and
  each file adds its own line whatever its siblings are.
\<close>

theorem files_loop_spec:
  "files_loop tstr pid (f # fs) (fm, m) =
     files_loop tstr pid fs
       (if Link f = [] then (fm, m @ issue_no_link pid f)
        else if Name f = [] then (fm, m @ issue_no_name tstr pid f)
        else (fmupd (Name f) f fm, m)) \<and>
   files_loop tstr pid fs (fm, m) =
     (fold (\<lambda>f. fmupd (Name f) f) (filter wellformed fs) fm,
      m @ concat (map (file_issue tstr pid) fs)) \<and>
   fst (files_loop tstr pid fs (fm, m)) = fst (files_loop tstr pid (filter wellformed fs) (fm, m)) \<and>
   fmlookup (fst (files_loop tstr pid fs (fm, m))) n =
     (case last_named n fs of Some g \<Rightarrow> Some g | None \<Rightarrow> fmlookup fm n)"
proof -
  have step: "files_loop tstr pid (f # fs) (fm, m) =
      files_loop tstr pid fs
        (if Link f = [] then (fm, m @ issue_no_link pid f)
         else if Name f = [] then (fm, m @ issue_no_name tstr pid f)
         else (fmupd (Name f) f fm, m))"
    by simp
  have whole: "files_loop tstr pid fs (fm, m) =
      (fold (\<lambda>f. fmupd (Name f) f) (filter wellformed fs) fm,
       m @ concat (map (file_issue tstr pid) fs))"
    by (rule files_loop_eq)
  have sib: "fst (files_loop tstr pid fs (fm, m)) =
      fst (files_loop tstr pid (filter wellformed fs) (fm, m))"
    by (simp add: files_loop_fst)
  have look: "fmlookup (fst (files_loop tstr pid fs (fm, m))) n =
      (case last_named n fs of Some g \<Rightarrow> Some g | None \<Rightarrow> fmlookup fm n)"
    by (simp add: files_loop_fst fold_upsert_lookup)
  from step whole sib look show ?thesis by (intro conjI)
qed

theorem files_loop_spec_witness:
  "files_loop sample_tstr ''SRR000003'' [file_nolink, file_a, file_noname, file_a2] (fmempty, []) =
     files_loop sample_tstr ''SRR000003'' [file_a, file_noname, file_a2]
       (fmempty, issue_no_link ''SRR000003'' file_nolink) \<and>
   files_loop sample_tstr ''SRR000003'' [file_a, file_noname, file_a2] (fmempty, []) =
     (fmupd ''a.bam'' file_a2 fmempty, issue_no_name sample_tstr ''SRR000003'' file_noname) \<and>
   filter wellformed [file_a, file_noname, file_a2] = [file_a, file_a2] \<and>
   last_named ''a.bam'' [file_a, file_noname, file_a2] = Some file_a2"
proof -
  have run: "files_loop sample_tstr ''SRR000003'' [file_nolink, file_a, file_noname, file_a2]
        (fmempty, []) =
      files_loop sample_tstr ''SRR000003'' [file_a, file_noname, file_a2]
        (fmempty, issue_no_link ''SRR000003'' file_nolink) \<and>
    files_loop sample_tstr ''SRR000003'' [file_a, file_noname, file_a2] (fmempty, []) =
      (fmupd ''a.bam'' file_a2 fmempty, issue_no_name sample_tstr ''SRR000003'' file_noname) \<and>
    filter wellformed [file_a, file_noname, file_a2] = [file_a, file_a2] \<and>
    last_named ''a.bam'' [file_a, file_noname, file_a2] = Some file_a2"
    by code_simp
  from files_loop_spec [of sample_tstr "''SRR000003''" file_nolink "[file_a, file_noname, file_a2]"
      fmempty "[]" "''a.bam''"] run
  show ?thesis by blast
qed

text \<open>
  C4. When exactly two entries of the list have identifier \<open>k\<close> and status 200, the
  result has one accession for \<open>k\<close>; the names of its files are the names of the
  well-formed files of the two entries, and under each name it holds the last such file
  of the later entry if there is one, otherwise the last such file of the earlier entry.
\<close>

theorem two_entries_merge:
  assumes "ID p1 = k" "Status p1 = 200" "ID p2 = k" "Status p2 = 200"
    and "\<forall>p\<in>set (xs @ ys @ zs). \<not> (ID p = k \<and> Status p = 200)"
    and "sanitize tstr (xs @ p1 # ys @ p2 # zs) = (a, m, e)"
  shows "\<exists>acc. fmlookup a k = Some acc \<and> AccID acc = k \<and>
           fmdom' (AccFiles acc) = Name ` {f \<in> set (Files p1) \<union> set (Files p2). wellformed f} \<and>
           (\<forall>n. fmlookup (AccFiles acc) n =
                  (case last_named n (Files p2) of
                     Some f \<Rightarrow> Some f
                   | None \<Rightarrow> last_named n (Files p1)))"
proof -
  let ?payload = "xs @ p1 # ys @ p2 # zs"
  from assms(6) have a: "a = fst (sanitize tstr ?payload)" by simp
  from assms(5) have "files_of k xs = []" "files_of k ys = []" "files_of k zs = []"
    by (simp_all add: files_of_none)
  then have fo: "files_of k ?payload = Files p1 @ Files p2"
    using assms(1-4) by (simp add: files_of_append files_of_Cons)
  have "\<exists>p\<in>set ?payload. ID p = k \<and> Status p = 200"
    using assms(1,2) by auto
  from sanitize_files_lookup [OF this, of tstr]
  obtain acc where acc: "fmlookup a k = Some acc" "AccID acc = k"
    and look: "\<And>n. fmlookup (AccFiles acc) n = last_named n (Files p1 @ Files p2)"
    unfolding a fo by blast
  have dom: "fmdom' (AccFiles acc) = Name ` {f \<in> set (Files p1) \<union> set (Files p2). wellformed f}"
  proof (rule set_eqI)
    fix n
    have "n \<in> fmdom' (AccFiles acc) \<longleftrightarrow> last_named n (Files p1 @ Files p2) \<noteq> None"
      by (simp add: fmlookup_dom'_iff look)
    also have "\<dots> \<longleftrightarrow> (\<exists>f\<in>set (Files p1 @ Files p2). wellformed f \<and> Name f = n)"
      by (simp add: last_named_None_iff)
    also have "\<dots> \<longleftrightarrow> n \<in> Name ` {f \<in> set (Files p1) \<union> set (Files p2). wellformed f}"
      by auto
    finally show "n \<in> fmdom' (AccFiles acc) \<longleftrightarrow>
                  n \<in> Name ` {f \<in> set (Files p1) \<union> set (Files p2). wellformed f}" .
  qed
  from acc dom look show ?thesis by (auto simp: last_named_append)
qed

theorem two_entries_merge_witness:
  "ID entry_ok = ''SRR000001'' \<and> Status entry_ok = 200 \<and>
   ID entry_more = ''SRR000001'' \<and> Status entry_more = 200 \<and>
   Status entry_404 \<noteq> 200 \<and>
   fmlookup (fst (sanitize sample_tstr ([] @ entry_ok # [entry_404] @ entry_more # [])))
     ''SRR000001'' =
     Some \<lparr>AccID = ''SRR000001'',
           AccFiles = fmupd ''b.bai'' file_b (fmupd ''a.bam'' file_a2 fmempty)\<rparr> \<and>
   last_named ''a.bam'' (Files entry_ok) = Some file_a \<and>
   last_named ''a.bam'' (Files entry_more) = Some file_a2 \<and>
   last_named ''b.bai'' (Files entry_ok) = None \<and>
   last_named ''b.bai'' (Files entry_more) = Some file_b"
proof -
  let ?payload = "[] @ entry_ok # [entry_404] @ entry_more # []"
  have h1: "ID entry_ok = ''SRR000001''" and h2: "Status entry_ok = 200"
    by (simp_all add: entry_ok_def)
  have h3: "ID entry_more = ''SRR000001''" and h4: "Status entry_more = 200"
    by (simp_all add: entry_more_def)
  have h5: "\<forall>p\<in>set ([] @ [entry_404] @ []). \<not> (ID p = ''SRR000001'' \<and> Status p = 200)"
    by (simp add: entry_404_def)
  have h6: "sanitize sample_tstr ?payload =
      (fst (sanitize sample_tstr ?payload), fst (snd (sanitize sample_tstr ?payload)),
       snd (snd (sanitize sample_tstr ?payload)))"
    by simp
  have run: "Status entry_404 \<noteq> 200 \<and>
      fmlookup (fst (sanitize sample_tstr ?payload)) ''SRR000001'' =
        Some \<lparr>AccID = ''SRR000001'',
              AccFiles = fmupd ''b.bai'' file_b (fmupd ''a.bam'' file_a2 fmempty)\<rparr> \<and>
      last_named ''a.bam'' (Files entry_ok) = Some file_a \<and>
      last_named ''a.bam'' (Files entry_more) = Some file_a2 \<and>
      last_named ''b.bai'' (Files entry_ok) = None \<and>
      last_named ''b.bai'' (Files entry_more) = Some file_b"
    by code_simp
  from two_entries_merge [OF h1 h2 h3 h4 h5 h6] h1 h2 h3 h4 run show ?thesis by blast
qed

text \<open>
  C7. For a response that passed the checks of status and content type: when the body
  decodes as a list of payloads, \<open>ResolveNames\<close> returns what \<open>sanitize\<close> returns for it;
  when it does not, but decodes as one payload, the call fails with the error that
  carries that payload's status and message; when neither decoding succeeds, the call
  fails with the could-not-read error, which is never equal to an error of the former
  kind.
\<close>

theorem decode_cases:
  assumes "StatusCode resp = 200" and "ContentType resp = ''application/json''"
    and "Body resp = Some bytes"
  shows "(ul bytes = Some payload \<longrightarrow>
            fst (ResolveNames ul uo tstr (Responded resp)) =
              (fst (sanitize tstr payload), snd (snd (sanitize tstr payload)))) \<and>
         (ul bytes = None \<and> uo bytes = Some ep \<longrightarrow>
            fst (ResolveNames ul uo tstr (Responded resp)) =
              (fmempty, Some (err_api (Status ep) (Message ep)))) \<and>
         (ul bytes = None \<and> uo bytes = None \<longrightarrow>
            fst (ResolveNames ul uo tstr (Responded resp)) = (fmempty, Some err_read)) \<and>
         err_read \<noteq> err_api (Status ep) (Message ep)"
  by (auto simp: ResolveNames_body [OF assms] err_read_not_err_api split: prod.splits)

theorem decode_cases_witness:
  "sample_unmarshal_list body_object_404 = None \<and>
   sample_unmarshal_one body_object_404 = Some object_404 \<and>
   fst (ResolveNames sample_unmarshal_list sample_unmarshal_one sample_tstr
          (respond body_object_404)) =
     (fmempty, Some (err_api 404 ''not found'')) \<and>
   err_api 404 ''not found'' = ''encountered error from Name Resolver API: 404: not found'' \<and>
   sample_unmarshal_one body_html = None \<and>
   fst (ResolveNames sample_unmarshal_list sample_unmarshal_one sample_tstr (respond body_html)) =
     (fmempty, Some err_read)"
proof -
  let ?resp = "\<lparr>StatusCode = 200, StatusText = ''200 OK'', ContentType = ''application/json'',
                 Body = Some body_object_404\<rparr>"
  have h1: "StatusCode ?resp = 200" and h2: "ContentType ?resp = ''application/json''"
    and h3: "Body ?resp = Some body_object_404"
    by simp_all
  have dec: "sample_unmarshal_list body_object_404 = None \<and>
      sample_unmarshal_one body_object_404 = Some object_404 \<and>
      Status object_404 = 404 \<and> Message object_404 = ''not found'' \<and>
      err_api 404 ''not found'' = ''encountered error from Name Resolver API: 404: not found'' \<and>
      sample_unmarshal_one body_html = None \<and>
      fst (ResolveNames sample_unmarshal_list sample_unmarshal_one sample_tstr
             (respond body_html)) = (fmempty, Some err_read)"
    by code_simp
  from decode_cases [where ul = sample_unmarshal_list and uo = sample_unmarshal_one
      and tstr = sample_tstr and ep = object_404 and payload = "[]", OF h1 h2 h3] dec
  show ?thesis by (simp add: respond_def)
qed

text \<open>
  C10. A body that does not decode as a list but decodes as one payload makes the call
  fail with the error carrying that payload's status and message, whatever the status
  and the files of the payload are; nothing is printed and the map returned is empty.
\<close>

theorem single_object_fails:
  assumes "StatusCode resp = 200" and "ContentType resp = ''application/json''"
    and "Body resp = Some bytes"
    and "ul bytes = None" and "uo bytes = Some ep"
  shows "ResolveNames ul uo tstr (Responded resp) =
           ((fmempty, Some (err_api (Status ep) (Message ep))), [])"
  using assms(4,5) by (simp add: ResolveNames_body [OF assms(1-3)])

theorem single_object_fails_witness:
  "sample_unmarshal_list body_object_ok = None \<and>
   sample_unmarshal_one body_object_ok = Some entry_ok \<and>
   Status entry_ok = 200 \<and> filter wellformed (Files entry_ok) = [file_a] \<and>
   ResolveNames sample_unmarshal_list sample_unmarshal_one sample_tstr (respond body_object_ok) =
     ((fmempty, Some (err_api 200 [])), [])"
proof -
  let ?resp = "\<lparr>StatusCode = 200, StatusText = ''200 OK'', ContentType = ''application/json'',
                 Body = Some body_object_ok\<rparr>"
  have h1: "StatusCode ?resp = 200" and h2: "ContentType ?resp = ''application/json''"
    and h3: "Body ?resp = Some body_object_ok"
    by simp_all
  have h4: "sample_unmarshal_list body_object_ok = None"
    and h5: "sample_unmarshal_one body_object_ok = Some entry_ok"
    by code_simp+
  have shape: "Status entry_ok = 200 \<and> Message entry_ok = [] \<and>
      filter wellformed (Files entry_ok) = [file_a]"
    by code_simp
  from single_object_fails [where ul = sample_unmarshal_list and uo = sample_unmarshal_one
      and tstr = sample_tstr and bytes = body_object_ok, OF h1 h2 h3 h4 h5] h4 h5 shape
  show ?thesis by (simp add: respond_def)
qed

text \<open>
  C8. As stated the claim fails: \<open>ResolveNames\<close> returns the map and the error only, so
  two responses with different diagnostics return the same value. What holds when the
  map is non-empty: \<open>sanitize\<close> hands the message to \<open>ResolveNames\<close> next to the map;
  \<open>ResolveNames\<close> returns the map with no error, and prints the message, followed by a
  line break, on standard output when the message is non-empty.
\<close>

theorem diagnostics_printed:
  assumes "StatusCode resp = 200" and "ContentType resp = ''application/json''"
    and "Body resp = Some bytes"
    and "ul bytes = Some payload" and "sanitize tstr payload = (a, m, e)" and "a \<noteq> fmempty"
  shows "e = None \<and>
         ResolveNames ul uo tstr (Responded resp) =
           ((a, None), if m \<noteq> [] then m @ [CHR 0x0A] else [])"
proof -
  have "e = None"
    using assms(5,6) by (auto simp: sanitize_unfold split: if_splits)
  then show ?thesis
    using assms(4,5) by (simp add: ResolveNames_body [OF assms(1-3)])
qed

theorem diagnostics_printed_witness:
  "sample_unmarshal_list body_mixed = Some [entry_ok, entry_404] \<and>
   sanitize sample_tstr [entry_ok, entry_404] =
     (fmupd ''SRR000001'' \<lparr>AccID = ''SRR000001'', AccFiles = fmupd ''a.bam'' file_a fmempty\<rparr>
        fmempty,
      issue_status entry_404, None) \<and>
   ResolveNames sample_unmarshal_list sample_unmarshal_one sample_tstr (respond body_mixed) =
     ((fmupd ''SRR000001'' \<lparr>AccID = ''SRR000001'', AccFiles = fmupd ''a.bam'' file_a fmempty\<rparr>
         fmempty, None),
      issue_status entry_404 @ [CHR 0x0A])"
proof -
  let ?resp = "\<lparr>StatusCode = 200, StatusText = ''200 OK'', ContentType = ''application/json'',
                 Body = Some body_mixed\<rparr>"
  have h1: "StatusCode ?resp = 200" and h2: "ContentType ?resp = ''application/json''"
    and h3: "Body ?resp = Some body_mixed"
    by simp_all
  have h4: "sample_unmarshal_list body_mixed = Some [entry_ok, entry_404]"
    by code_simp
  have h5: "sanitize sample_tstr [entry_ok, entry_404] =
      (fmupd ''SRR000001'' \<lparr>AccID = ''SRR000001'', AccFiles = fmupd ''a.bam'' file_a fmempty\<rparr>
         fmempty,
       issue_status entry_404, None)"
    by code_simp
  have h6: "fmupd ''SRR000001'' \<lparr>AccID = ''SRR000001'', AccFiles = fmupd ''a.bam'' file_a fmempty\<rparr>
      fmempty \<noteq> fmempty"
    by code_simp
  have ne: "issue_status entry_404 \<noteq> []"
    by (rule issue_status_nonempty)
  from diagnostics_printed [where ul = sample_unmarshal_list and uo = sample_unmarshal_one
      and bytes = body_mixed, OF h1 h2 h3 h4 h5 h6] h4 h5 ne
  show ?thesis by (simp add: respond_def)
qed

theorem diagnostics_printed_counterexample:
  "sample_unmarshal_list body_ok = Some [entry_ok] \<and>
   sample_unmarshal_list body_mixed = Some [entry_ok, entry_404] \<and>
   fst (snd (sanitize sample_tstr [entry_ok])) = [] \<and>
   fst (snd (sanitize sample_tstr [entry_ok, entry_404])) = issue_status entry_404 \<and>
   issue_status entry_404 \<noteq> [] \<and>
   fst (ResolveNames sample_unmarshal_list sample_unmarshal_one sample_tstr (respond body_ok)) =
     fst (ResolveNames sample_unmarshal_list sample_unmarshal_one sample_tstr
            (respond body_mixed))"
  by code_simp

end
